theory Spec2Isabelle
  imports Complex_Main
begin

section \<open>Snapshots\<close>

text \<open>
  A snapshot is the object that \<^verbatim>\<open>JSON.parse\<close> hands to \<^verbatim>\<open>updateDashboard\<close>. Every
  subsection the source reads with \<^verbatim>\<open>?.\<close> or guards with \<^verbatim>\<open>if (!x) return\<close> is optional.
  A subsection that is present is complete: inside a present \<^verbatim>\<open>cpu\<close> or \<^verbatim>\<open>memory.virtual\<close>
  object the field \<^verbatim>\<open>percent\<close> is a number, as \<^verbatim>\<open>updateCPU\<close> and \<^verbatim>\<open>updateMemory\<close> call
  \<^verbatim>\<open>percent.toFixed\<close> on it. A message on which one of the DOM update functions throws
  does not reach \<^verbatim>\<open>updateCharts\<close> or the recording buffer; the type leaves such messages
  out. The two fields of \<^verbatim>\<open>network.speed\<close> are optional, since every reader of them
  tolerates \<^verbatim>\<open>undefined\<close>. The subsections \<^verbatim>\<open>disk\<close>, \<^verbatim>\<open>gpu\<close> and \<^verbatim>\<open>processes\<close> and the
  remaining fields of \<^verbatim>\<open>cpu\<close>, \<^verbatim>\<open>memory\<close> and \<^verbatim>\<open>network\<close> only feed DOM text and are left
  out. JavaScript numbers are modelled as reals: rounding of doubles is not modelled.
\<close>

record system_info =
  hostname :: string
  platform :: string
  platform_release :: string
  processor :: string

record cpu_info =
  percent :: real

record virtual_info =
  virtual_percent :: real

record memory_info =
  virtual :: "virtual_info option"

record speed_info =
  upload_bytes_per_sec :: "real option"
  download_bytes_per_sec :: "real option"

record network_info =
  speed :: "speed_info option"

record snapshot =
  system :: "system_info option"
  cpu :: "cpu_info option"
  memory :: "memory_info option"
  network :: "network_info option"

text \<open>The four scalar reads of the source, each with its \<^verbatim>\<open>|| 0\<close> default.\<close>

definition cpu_percent_or0 :: "snapshot \<Rightarrow> real" where
  \<comment> \<open>\<^verbatim>\<open>d.cpu?.percent || 0\<close>\<close>
  "cpu_percent_or0 d = (case cpu d of None \<Rightarrow> 0 | Some c \<Rightarrow> percent c)"

definition memory_percent_or0 :: "snapshot \<Rightarrow> real" where
  \<comment> \<open>\<^verbatim>\<open>d.memory?.virtual?.percent || 0\<close>\<close>
  "memory_percent_or0 d =
     (case memory d of None \<Rightarrow> 0
      | Some m \<Rightarrow> (case virtual m of None \<Rightarrow> 0 | Some v \<Rightarrow> virtual_percent v))"

definition upload_or0 :: "snapshot \<Rightarrow> real" where
  \<comment> \<open>\<^verbatim>\<open>d.network?.speed?.upload_bytes_per_sec || 0\<close>\<close>
  "upload_or0 d =
     (case network d of None \<Rightarrow> 0
      | Some n \<Rightarrow> (case speed n of None \<Rightarrow> 0
          | Some sp \<Rightarrow> (case upload_bytes_per_sec sp of None \<Rightarrow> 0 | Some v \<Rightarrow> v)))"

definition download_or0 :: "snapshot \<Rightarrow> real" where
  \<comment> \<open>\<^verbatim>\<open>d.network?.speed?.download_bytes_per_sec || 0\<close>\<close>
  "download_or0 d =
     (case network d of None \<Rightarrow> 0
      | Some n \<Rightarrow> (case speed n of None \<Rightarrow> 0
          | Some sp \<Rightarrow> (case download_bytes_per_sec sp of None \<Rightarrow> 0 | Some v \<Rightarrow> v)))"

definition up_kb :: "snapshot \<Rightarrow> real" where
  "up_kb d = upload_or0 d / 1024"

definition down_kb :: "snapshot \<Rightarrow> real" where
  "down_kb d = download_or0 d / 1024"

section \<open>Statistics values\<close>

text \<open>
  The results of \<^verbatim>\<open>calculateStats\<close> are JavaScript numbers that need not be finite:
  \<^verbatim>\<open>0 / 0\<close> is \<^verbatim>\<open>NaN\<close>, \<^verbatim>\<open>Math.min()\<close> is \<^verbatim>\<open>Infinity\<close> and \<^verbatim>\<open>Math.max()\<close> is \<^verbatim>\<open>-Infinity\<close>.
\<close>

datatype jsnum = Num real | NaN | Infinity | NegInfinity

definition js_div :: "real \<Rightarrow> real \<Rightarrow> jsnum" where
  "js_div a b =
     (if b \<noteq> 0 then Num (a / b)
      else if a = 0 then NaN
      else if 0 < a then Infinity else NegInfinity)"

fun Math_min :: "real list \<Rightarrow> jsnum" where
  "Math_min [] = Infinity"
| "Math_min (x # xs) = Num (fold min xs x)"

fun Math_max :: "real list \<Rightarrow> jsnum" where
  "Math_max [] = NegInfinity"
| "Math_max (x # xs) = Num (fold max xs x)"

definition avg :: "real list \<Rightarrow> jsnum" where
  \<comment> \<open>\<^verbatim>\<open>arr => arr.reduce((a, b) => a + b, 0) / arr.length\<close>\<close>
  "avg arr = js_div (foldl (+) 0 arr) (real (length arr))"

record metric_stats =
  s_avg :: jsnum
  s_min :: jsnum
  s_max :: jsnum

record network_stats =
  uploadAvg :: jsnum
  downloadAvg :: jsnum

record stats =
  stats_cpu :: metric_stats
  stats_memory :: metric_stats
  stats_network :: network_stats

section \<open>The page state\<close>

definition MAX_HISTORY :: nat where
  "MAX_HISTORY = 60"

definition RECORDING_DURATION :: nat where
  "RECORDING_DURATION = 5 * 60 * 1000"

record network_history =
  upload :: "real list"
  download :: "real list"

record history =
  hist_cpu :: "real list"
  hist_memory :: "real list"
  hist_network :: network_history

text \<open>
  The texts the source writes into the page are Korean; each is a constructor here.
  \<open>Txt_html\<close> and \<open>Face_html\<close> stand for what the page's own markup contains before any
  handler has written.
\<close>

datatype ui_text =
    Txt_html
  | Txt_connected \<comment> \<open>"connected"\<close>
  | Txt_disconnected \<comment> \<open>"connection lost"\<close>
  | Txt_recording \<comment> \<open>"recording..."\<close>
  | Txt_recording_done \<comment> \<open>"recording complete"\<close>

datatype btn_face =
    Face_html
  | Face_stop \<comment> \<open>"stop recording", class \<^verbatim>\<open>btn-danger\<close>\<close>
  | Face_start \<comment> \<open>"start 5-minute recording", class \<^verbatim>\<open>btn-primary\<close>\<close>

record page =
  status_dot :: string
  status_text :: ui_text
  recordingDot_active :: bool
  recordingText :: ui_text
  downloadPdfBtn_disabled :: bool
  startRecordingBtn :: btn_face

text \<open>What the user gets to see from an export: the alert, or the saved document.\<close>

record report =
  duration_seconds :: nat
  sysInfo :: "system_info option"
  report_stats :: stats

datatype user_output = Alert_no_data | Pdf_saved report

text \<open>
  The two functions the source hands to \<^verbatim>\<open>setTimeout\<close>: the arrow function of
  \<^verbatim>\<open>startRecording\<close> and \<^verbatim>\<open>connectWebSocket\<close>.
\<close>

datatype timeout_callback = Auto_stop | Reconnect

text \<open>
  The \<^verbatim>\<open>readyState\<close> of a \<^verbatim>\<open>WebSocket\<close>: the constructor returns a socket that is
  connecting; the socket is open when its open event is fired and closed when its close
  event is fired.
\<close>

datatype ready_state = CONNECTING | OPEN | CLOSING | CLOSED

text \<open>
  The globals of the script, and the part of the browser they act on: the clock, the
  pending timeouts \<open>(handle, due time, callback)\<close>, the running intervals, the next free
  timer handle, the number of \<^verbatim>\<open>WebSocket\<close> objects constructed so far (\<open>ws = 0\<close> is
  \<^verbatim>\<open>null\<close>), and the \<^verbatim>\<open>readyState\<close> of the socket in \<^verbatim>\<open>ws\<close>.
\<close>

record state =
  ws :: nat
  readyState :: ready_state
  historyData :: history
  isRecording :: bool
  recordingData :: "snapshot list"
  recordingStartTime :: "nat option"
  recordingTimer :: "nat option"
  page :: page
  outputs :: "user_output list"
  clock :: nat
  timeouts :: "(nat \<times> nat \<times> timeout_callback) list"
  intervals :: "nat list"
  next_handle :: nat

section \<open>Connection\<close>

definition updateConnectionStatus :: "string \<Rightarrow> state \<Rightarrow> state" where
  "updateConnectionStatus status s =
     s\<lparr>page := (page s)\<lparr>
          status_dot := ''status-dot '' @ status,
          status_text := (if status = ''connected'' then Txt_connected else Txt_disconnected)\<rparr>\<rparr>"

definition setTimeout :: "timeout_callback \<Rightarrow> nat \<Rightarrow> state \<Rightarrow> state" where
  "setTimeout cb delay s =
     s\<lparr>timeouts := timeouts s @ [(next_handle s, clock s + delay, cb)],
       next_handle := Suc (next_handle s)\<rparr>"

definition connectWebSocket :: "state \<Rightarrow> state" where
  \<comment> \<open>a new socket replaces \<^verbatim>\<open>ws\<close>; the four handlers below are attached to it\<close>
  "connectWebSocket s = s\<lparr>ws := Suc (ws s), readyState := CONNECTING\<rparr>"

definition ws_onopen :: "state \<Rightarrow> state" where
  "ws_onopen s = updateConnectionStatus ''connected'' s"

definition ws_onclose :: "state \<Rightarrow> state" where
  "ws_onclose s = setTimeout Reconnect 3000 (updateConnectionStatus ''disconnected'' s)"

definition ws_onerror :: "state \<Rightarrow> state" where
  "ws_onerror s = updateConnectionStatus ''disconnected'' s"

section \<open>History\<close>

definition updateCharts :: "snapshot \<Rightarrow> state \<Rightarrow> state" where
  "updateCharts data s =
     (let h = historyData s;
          cpu1 = hist_cpu h @ [cpu_percent_or0 data];
          cpu2 = (if length cpu1 > MAX_HISTORY then tl cpu1 else cpu1);
          mem1 = hist_memory h @ [memory_percent_or0 data];
          mem2 = (if length mem1 > MAX_HISTORY then tl mem1 else mem1);
          up = upload_or0 data / 1024;
          down = download_or0 data / 1024;
          up1 = upload (hist_network h) @ [up];
          down1 = download (hist_network h) @ [down];
          net2 = (if length up1 > MAX_HISTORY
                  then \<lparr>upload = tl up1, download = tl down1\<rparr>
                  else \<lparr>upload = up1, download = down1\<rparr>)
      in s\<lparr>historyData := \<lparr>hist_cpu = cpu2, hist_memory = mem2, hist_network = net2\<rparr>\<rparr>)"

definition updateDashboard :: "snapshot \<Rightarrow> state \<Rightarrow> state" where
  \<comment> \<open>the seven \<^verbatim>\<open>update...\<close> calls before \<^verbatim>\<open>updateCharts\<close> write DOM text and gauges only\<close>
  "updateDashboard data s = updateCharts data s"

datatype js_error = SyntaxError

text \<open>
  \<^verbatim>\<open>JSON.parse\<close> is the browser's: it is a parameter here, \<open>None\<close> where it throws.
\<close>

type_synonym parser = "string \<Rightarrow> snapshot option"

definition ws_onmessage :: "parser \<Rightarrow> string \<Rightarrow> state \<Rightarrow> js_error + state" where
  "ws_onmessage parse raw s =
     (case parse raw of
        None \<Rightarrow> Inl SyntaxError
      | Some data \<Rightarrow>
          (let s1 = updateDashboard data s
           in Inr (if isRecording s1
                   then s1\<lparr>recordingData := recordingData s1 @ [data]\<rparr>
                   else s1)))"

section \<open>Recording\<close>

definition clearInterval :: "nat option \<Rightarrow> state \<Rightarrow> state" where
  \<comment> \<open>timeouts and intervals share one pool of handles; \<^verbatim>\<open>null\<close> names no timer\<close>
  "clearInterval h s =
     (case h of
        None \<Rightarrow> s
      | Some i \<Rightarrow> s\<lparr>timeouts := filter (\<lambda>t. fst t \<noteq> i) (timeouts s),
                   intervals := filter (\<lambda>j. j \<noteq> i) (intervals s)\<rparr>)"

definition stopRecording :: "state \<Rightarrow> state" where
  "stopRecording s =
     (let s1 = s\<lparr>isRecording := False\<rparr>;
          s2 = clearInterval (recordingTimer s1) s1
      in s2\<lparr>page := (page s2)\<lparr>
            recordingDot_active := False,
            recordingText := Txt_recording_done,
            downloadPdfBtn_disabled := False\<rparr>\<rparr>)"

definition auto_stop :: "state \<Rightarrow> state" where
  \<comment> \<open>the arrow function that \<^verbatim>\<open>startRecording\<close> hands to \<^verbatim>\<open>setTimeout\<close>\<close>
  "auto_stop s =
     (if isRecording s
      then (let s1 = stopRecording s
            in s1\<lparr>page := (page s1)\<lparr>startRecordingBtn := Face_start\<rparr>\<rparr>)
      else s)"

definition startRecording :: "state \<Rightarrow> state" where
  "startRecording s =
     (let s1 = s\<lparr>isRecording := True, recordingData := [],
                 recordingStartTime := Some (clock s)\<rparr>;
          s2 = s1\<lparr>page := (page s1)\<lparr>
                 recordingDot_active := True,
                 recordingText := Txt_recording,
                 downloadPdfBtn_disabled := True\<rparr>\<rparr>;
          s3 = s2\<lparr>recordingTimer := Some (next_handle s2),
                 intervals := intervals s2 @ [next_handle s2],
                 next_handle := Suc (next_handle s2)\<rparr>
      in setTimeout Auto_stop RECORDING_DURATION s3)"

definition toggleRecording :: "state \<Rightarrow> state" where
  "toggleRecording s =
     (if \<not> isRecording s
      then (let s1 = startRecording s
            in s1\<lparr>page := (page s1)\<lparr>startRecordingBtn := Face_stop\<rparr>\<rparr>)
      else (let s1 = stopRecording s
            in s1\<lparr>page := (page s1)\<lparr>startRecordingBtn := Face_start\<rparr>\<rparr>))"

section \<open>Export\<close>

definition calculateStats :: "state \<Rightarrow> stats" where
  "calculateStats s =
     (let cpuValues = map cpu_percent_or0 (recordingData s);
          memValues = map memory_percent_or0 (recordingData s);
          upValues = map (\<lambda>d. upload_or0 d / 1024) (recordingData s);
          downValues = map (\<lambda>d. download_or0 d / 1024) (recordingData s)
      in \<lparr>stats_cpu = \<lparr>s_avg = avg cpuValues, s_min = Math_min cpuValues,
                        s_max = Math_max cpuValues\<rparr>,
          stats_memory = \<lparr>s_avg = avg memValues, s_min = Math_min memValues,
                           s_max = Math_max memValues\<rparr>,
          stats_network = \<lparr>uploadAvg = avg upValues, downloadAvg = avg downValues\<rparr>\<rparr>)"

definition downloadPDF :: "state \<Rightarrow> state" where
  \<comment> \<open>the capture of the dashboard image is the renderer's; the document holds the rest\<close>
  "downloadPDF s =
     (if length (recordingData s) = 0
      then s\<lparr>outputs := outputs s @ [Alert_no_data]\<rparr>
      else s\<lparr>outputs := outputs s @
             [Pdf_saved \<lparr>duration_seconds = length (recordingData s),
                         sysInfo = (case recordingData s of [] \<Rightarrow> None | d # _ \<Rightarrow> system d),
                         report_stats = calculateStats s\<rparr>]\<rparr>)"

section \<open>The event loop\<close>

text \<open>
  One event is one task of the browser. \<open>Advance\<close> lets the clock move. A timeout can
  fire once it is pending and due; an interval can fire while it is running. A click on a
  disabled button dispatches no handler. An exception that leaves a handler ends that
  run only: the state is what the handler had written so far. The browser sets the
  socket's \<^verbatim>\<open>readyState\<close> before it fires the open or the close event. A connection that
  fails is closed in one task that fires the error event and then the close event on the
  socket: \<open>Ws_error\<close> is that task, and \<open>Ws_close\<close> is a close without an error.
\<close>

datatype event =
    Click_startRecordingBtn
  | Click_downloadPdfBtn
  | Ws_open
  | Ws_close
  | Ws_error
  | Ws_message string
  | Timeout_fires nat
  | Interval_fires nat
  | Advance nat

definition run_callback :: "timeout_callback \<Rightarrow> state \<Rightarrow> state" where
  "run_callback cb s = (case cb of Auto_stop \<Rightarrow> auto_stop s | Reconnect \<Rightarrow> connectWebSocket s)"

definition step :: "parser \<Rightarrow> state \<Rightarrow> event \<Rightarrow> state option" where
  "step parse s e =
     (case e of
        Click_startRecordingBtn \<Rightarrow> Some (toggleRecording s)
      | Click_downloadPdfBtn \<Rightarrow>
          Some (if downloadPdfBtn_disabled (page s) then s else downloadPDF s)
      | Ws_open \<Rightarrow> Some (ws_onopen (s\<lparr>readyState := OPEN\<rparr>))
      | Ws_close \<Rightarrow> Some (ws_onclose (s\<lparr>readyState := CLOSED\<rparr>))
      | Ws_error \<Rightarrow> Some (ws_onclose (ws_onerror (s\<lparr>readyState := CLOSED\<rparr>)))
      | Ws_message raw \<Rightarrow>
          Some (case ws_onmessage parse raw s of Inl err \<Rightarrow> s | Inr s' \<Rightarrow> s')
      | Timeout_fires h \<Rightarrow>
          (case filter (\<lambda>t. fst t = h) (timeouts s) of
             [] \<Rightarrow> None
           | t # _ \<Rightarrow>
               if fst (snd t) \<le> clock s
               then Some (run_callback (snd (snd t))
                            (s\<lparr>timeouts := filter (\<lambda>t. fst t \<noteq> h) (timeouts s)\<rparr>))
               else None)
      | Interval_fires h \<Rightarrow> (if h \<in> set (intervals s) then Some s else None)
      | Advance d \<Rightarrow> Some (s\<lparr>clock := clock s + d\<rparr>))"

fun run :: "parser \<Rightarrow> state \<Rightarrow> event list \<Rightarrow> state option" where
  "run parse s [] = Some s"
| "run parse s (e # es) =
     (case step parse s e of None \<Rightarrow> None | Some s' \<Rightarrow> run parse s' es)"

text \<open>
  The state once the script has loaded and the \<^verbatim>\<open>DOMContentLoaded\<close> handler has run:
  the initialisers of the globals, then \<^verbatim>\<open>connectWebSocket()\<close> and
  \<^verbatim>\<open>setInterval(updateTime, 1000)\<close>. The page's markup and the time of loading are
  parameters.
\<close>

definition init :: "page \<Rightarrow> nat \<Rightarrow> state" where
  "init pg t0 =
     (let s0 = \<lparr>ws = 0,
                readyState = CLOSED,
                historyData = \<lparr>hist_cpu = [], hist_memory = [],
                                 hist_network = \<lparr>upload = [], download = []\<rparr>\<rparr>,
                isRecording = False,
                recordingData = [],
                recordingStartTime = None,
                recordingTimer = None,
                page = pg,
                outputs = [],
                clock = t0,
                timeouts = [],
                intervals = [],
                next_handle = 1\<rparr>;
          s1 = connectWebSocket s0
      in s1\<lparr>intervals := intervals s1 @ [next_handle s1],
            next_handle := Suc (next_handle s1)\<rparr>)"

text \<open>The snapshots that a run of events ingests, in arrival order.\<close>

fun accepted :: "parser \<Rightarrow> event list \<Rightarrow> snapshot list" where
  "accepted parse [] = []"
| "accepted parse (Ws_message raw # es) =
     (case parse raw of None \<Rightarrow> accepted parse es | Some d \<Rightarrow> d # accepted parse es)"
| "accepted parse (e # es) = accepted parse es"

text \<open>
  The session states of the specification, read off the globals: a session is Active
  while \<^verbatim>\<open>isRecording\<close> holds, Idle before the first start, Completed after a stop.
\<close>

text \<open>
  The connection states of the specification, read off the socket in \<^verbatim>\<open>ws\<close>.
\<close>

datatype connection_state = Connecting | Connected | Disconnected

definition connectionState :: "state \<Rightarrow> connection_state" where
  "connectionState s =
     (case readyState s of
        CONNECTING \<Rightarrow> Connecting
      | OPEN \<Rightarrow> Connected
      | CLOSING \<Rightarrow> Disconnected
      | CLOSED \<Rightarrow> Disconnected)"

datatype session_status = Idle | Active | Completed

definition status :: "state \<Rightarrow> session_status" where
  "status s =
     (if isRecording s then Active
      else if recordingStartTime s = None then Idle else Completed)"

section \<open>Auxiliary definitions\<close>

text \<open>
  A state tracks a list of snapshots when each of the four histories holds the scalar
  reads of the most recent \<open>MAX_HISTORY\<close> of them, oldest first.
\<close>

definition tracks :: "state \<Rightarrow> snapshot list \<Rightarrow> bool" where
  "tracks s ds =
     (let recent = drop (length ds - MAX_HISTORY) ds; h = historyData s
      in hist_cpu h = map cpu_percent_or0 recent \<and>
         hist_memory h = map memory_percent_or0 recent \<and>
         upload (hist_network h) = map up_kb recent \<and>
         download (hist_network h) = map down_kb recent)"

text \<open>
  Timer handles are handed out in increasing order: every pending timeout has a handle
  below the next free one, and the handle in \<^verbatim>\<open>recordingTimer\<close> is an interval's, not
  that of a pending timeout.
\<close>

definition timers_ok :: "state \<Rightarrow> bool" where
  "timers_ok s =
     ((\<forall>t \<in> set (timeouts s). fst t < next_handle s) \<and>
      (\<forall>h. recordingTimer s = Some h \<longrightarrow>
         h < next_handle s \<and> (\<forall>t \<in> set (timeouts s). fst t \<noteq> h)))"

text \<open>
  Concrete inputs for the examples: a page as its markup may leave it, the message
  \<^verbatim>\<open>{}\<close>, a message that carries network speeds only, and a parser that agrees with
  \<^verbatim>\<open>JSON.parse\<close> on the two texts the examples send, \<^verbatim>\<open>{}\<close> and the single brace
  \<^verbatim>\<open>{\<close>, which is not JSON.
\<close>

definition page_html :: page where
  "page_html = \<lparr>status_dot = ''status-dot'', status_text = Txt_html,
       recordingDot_active = False, recordingText = Txt_html,
       downloadPdfBtn_disabled = True, startRecordingBtn = Face_html\<rparr>"

definition snapshot_empty :: snapshot where
  "snapshot_empty = \<lparr>system = None, cpu = None, memory = None, network = None\<rparr>"

definition net_sample :: "real \<Rightarrow> real \<Rightarrow> snapshot" where
  "net_sample u v = \<lparr>system = None, cpu = None, memory = None,
       network = Some \<lparr>speed = Some \<lparr>upload_bytes_per_sec = Some u,
                                         download_bytes_per_sec = Some v\<rparr>\<rparr>\<rparr>"

definition parse_sample :: parser where
  "parse_sample raw = (if raw = ''{}'' then Some snapshot_empty else None)"

text \<open>
  A state whose buffer holds three snapshots: upload rates of 1024, none and 5120 bytes
  per second, download rates of 10240, none and 20480.
\<close>

definition stats_example :: state where
  "stats_example = (init page_html 0)\<lparr>recordingData :=
       [net_sample 1024 10240, snapshot_empty, net_sample 5120 20480]\<rparr>"

text \<open>
  A snapshot with all four fields present; a parser for the message \<^verbatim>\<open>{}\<close> and three
  messages called A, B and C here, which stand for the JSON texts of three such
  snapshots; and a state whose buffer holds two of them around the snapshot of
  \<^verbatim>\<open>{}\<close>.
\<close>

definition full_sample :: "real \<Rightarrow> real \<Rightarrow> real \<Rightarrow> real \<Rightarrow> snapshot" where
  "full_sample c m u v =
     \<lparr>system = None, cpu = Some \<lparr>percent = c\<rparr>,
      memory = Some \<lparr>virtual = Some \<lparr>virtual_percent = m\<rparr>\<rparr>,
      network = Some \<lparr>speed = Some \<lparr>upload_bytes_per_sec = Some u,
                                        download_bytes_per_sec = Some v\<rparr>\<rparr>\<rparr>"

definition parse_samples :: parser where
  "parse_samples = map_of
     [(''{}'', snapshot_empty),
      (''A'', full_sample 10 40 1024 2048),
      (''B'', full_sample 20 50 3072 4096),
      (''C'', full_sample 30 60 5120 6144)]"

definition stats_example_full :: state where
  "stats_example_full = (init page_html 0)\<lparr>recordingData :=
       [full_sample 10 40 1024 2048, snapshot_empty, full_sample 50 80 5120 4096]\<rparr>"

text \<open>
  What the export button may do in each state of the session: it is disabled while a
  recording is Active and enabled once one is Completed; before the first recording it
  is as the markup left it and the buffer is empty.
\<close>

definition export_ok :: "page \<Rightarrow> state \<Rightarrow> bool" where
  "export_ok pg s =
     ((isRecording s \<longrightarrow> recordingStartTime s \<noteq> None) \<and>
      (case status s of
         Active \<Rightarrow> downloadPdfBtn_disabled (page s)
       | Completed \<Rightarrow> \<not> downloadPdfBtn_disabled (page s)
       | Idle \<Rightarrow> recordingData s = [] \<and>
           downloadPdfBtn_disabled (page s) = downloadPdfBtn_disabled pg))"

section \<open>Rolling histories\<close>

text \<open>
  Appending to the last \<open>n\<close> values of a sequence and dropping the head when the
  result is longer than \<open>n\<close> gives the last \<open>n\<close> values of the extended sequence.
\<close>

lemma push_evict:
  "(if n < length (drop (length xs - n) xs @ [x])
    then tl (drop (length xs - n) xs @ [x])
    else drop (length xs - n) xs @ [x])
   = drop (length (xs @ [x]) - n) (xs @ [x])"
proof (cases "length xs < n")
  case True
  then show ?thesis by simp
next
  case False
  then have le: "n \<le> length xs" by simp
  show ?thesis
  proof (cases "n = 0")
    case True
    then show ?thesis by simp
  next
    case False
    with le have ne: "drop (length xs - n) xs \<noteq> []" by simp
    from le have k: "Suc (length xs) - n = Suc (length xs - n)" by simp
    from le False have k2: "Suc (length xs - n) \<le> length xs" by arith
    show ?thesis using ne le k k2 by (simp add: tl_drop drop_Suc)
  qed
qed

lemma push_evict_map:
  assumes "h = map f (drop (length xs - n) xs)"
  shows "(if n < length (h @ [f x]) then tl (h @ [f x]) else h @ [f x])
         = map f (drop (length (xs @ [x]) - n) (xs @ [x]))"
proof -
  have a: "h = drop (length (map f xs) - n) (map f xs)"
    using assms by (simp add: drop_map)
  have b: "map f (drop (length (xs @ [x]) - n) (xs @ [x]))
           = drop (length (map f (xs @ [x])) - n) (map f (xs @ [x]))"
    by (simp only: drop_map length_map)
  have c: "map f (xs @ [x]) = map f xs @ [f x]" by simp
  show ?thesis unfolding a b c by (rule push_evict)
qed

lemma tracks_updateCharts:
  assumes "tracks s ds"
  shows "tracks (updateCharts d s) (ds @ [d])"
proof -
  let ?r = "drop (length ds - MAX_HISTORY) ds"
  let ?r' = "drop (length (ds @ [d]) - MAX_HISTORY) (ds @ [d])"
  let ?h = "historyData s"
  let ?h' = "historyData (updateCharts d s)"
  from assms have c: "hist_cpu ?h = map cpu_percent_or0 ?r"
    and m: "hist_memory ?h = map memory_percent_or0 ?r"
    and u: "upload (hist_network ?h) = map up_kb ?r"
    and w: "download (hist_network ?h) = map down_kb ?r"
    by (simp_all add: tracks_def Let_def)
  from u w have len: "length (upload (hist_network ?h)) = length (download (hist_network ?h))"
    by simp
  have "hist_cpu ?h' =
          (if MAX_HISTORY < length (hist_cpu ?h @ [cpu_percent_or0 d])
           then tl (hist_cpu ?h @ [cpu_percent_or0 d]) else hist_cpu ?h @ [cpu_percent_or0 d])"
    by (simp add: updateCharts_def Let_def)
  also have "\<dots> = map cpu_percent_or0 ?r'"
    using c by (rule push_evict_map)
  finally have c': "hist_cpu ?h' = map cpu_percent_or0 ?r'" .
  have "hist_memory ?h' =
          (if MAX_HISTORY < length (hist_memory ?h @ [memory_percent_or0 d])
           then tl (hist_memory ?h @ [memory_percent_or0 d])
           else hist_memory ?h @ [memory_percent_or0 d])"
    by (simp add: updateCharts_def Let_def)
  also have "\<dots> = map memory_percent_or0 ?r'"
    using m by (rule push_evict_map)
  finally have m': "hist_memory ?h' = map memory_percent_or0 ?r'" .
  have "upload (hist_network ?h') =
          (if MAX_HISTORY < length (upload (hist_network ?h) @ [up_kb d])
           then tl (upload (hist_network ?h) @ [up_kb d])
           else upload (hist_network ?h) @ [up_kb d])"
    by (simp add: updateCharts_def Let_def up_kb_def)
  also have "\<dots> = map up_kb ?r'"
    using u by (rule push_evict_map)
  finally have u': "upload (hist_network ?h') = map up_kb ?r'" .
  have "download (hist_network ?h') =
          (if MAX_HISTORY < length (download (hist_network ?h) @ [down_kb d])
           then tl (download (hist_network ?h) @ [down_kb d])
           else download (hist_network ?h) @ [down_kb d])"
    using len by (simp add: updateCharts_def Let_def down_kb_def)
  also have "\<dots> = map down_kb ?r'"
    using w by (rule push_evict_map)
  finally have w': "download (hist_network ?h') = map down_kb ?r'" .
  show ?thesis
    unfolding tracks_def Let_def using c' m' u' w' by simp
qed

lemma historyData_toggleRecording [simp]: "historyData (toggleRecording s) = historyData s"
  by (simp add: toggleRecording_def startRecording_def stopRecording_def clearInterval_def
      setTimeout_def Let_def split: option.splits)

lemma historyData_downloadPDF [simp]: "historyData (downloadPDF s) = historyData s"
  by (simp add: downloadPDF_def)

lemma historyData_connection [simp]:
  "historyData (ws_onopen s) = historyData s"
  "historyData (ws_onclose s) = historyData s"
  "historyData (ws_onerror s) = historyData s"
  "historyData (connectWebSocket s) = historyData s"
  by (simp_all add: ws_onopen_def ws_onclose_def ws_onerror_def connectWebSocket_def
      updateConnectionStatus_def setTimeout_def)

lemma historyData_auto_stop [simp]: "historyData (auto_stop s) = historyData s"
  by (simp add: auto_stop_def stopRecording_def clearInterval_def Let_def split: option.splits)

lemma historyData_run_callback [simp]: "historyData (run_callback cb s) = historyData s"
  by (cases cb) (simp_all add: run_callback_def)

lemma tracks_cong: "historyData s' = historyData s \<Longrightarrow> tracks s' ds = tracks s ds"
  by (simp add: tracks_def)

lemma historyData_step:
  assumes "step parse s e = Some s'" and "accepted parse [e] = []"
  shows "historyData s' = historyData s"
proof (cases e)
  case (Ws_message raw)
  with assms show ?thesis
    by (cases "parse raw") (simp_all add: step_def ws_onmessage_def)
next
  case (Timeout_fires h)
  show ?thesis
  proof (cases "filter (\<lambda>t. fst t = h) (timeouts s)")
    case Nil
    with Timeout_fires assms(1) show ?thesis by (simp add: step_def)
  next
    case (Cons t ts)
    with Timeout_fires assms(1) show ?thesis
      by (cases "fst (snd t) \<le> clock s") (auto simp: step_def)
  qed
next
  case (Interval_fires h)
  with assms(1) show ?thesis
    by (cases "h \<in> set (intervals s)") (auto simp: step_def)
next
  case Click_downloadPdfBtn
  with assms(1) show ?thesis
    by (cases "downloadPdfBtn_disabled (page s)") (auto simp: step_def)
qed (use assms(1) in \<open>auto simp: step_def\<close>)

lemma tracks_step:
  assumes "tracks s ds" and "step parse s e = Some s'"
  shows "tracks s' (ds @ accepted parse [e])"
proof (cases "accepted parse [e]")
  case Nil
  with assms(2) have "historyData s' = historyData s" by (rule historyData_step)
  with assms(1) Nil show ?thesis by (simp add: tracks_cong [of s' s])
next
  case (Cons d ds')
  then obtain raw where e: "e = Ws_message raw" and p: "parse raw = Some d" and "ds' = []"
    by (cases e) (auto split: option.splits)
  have "tracks (updateCharts d s) (ds @ [d])" using assms(1) by (rule tracks_updateCharts)
  moreover have "historyData s' = historyData (updateCharts d s)"
    using e p assms(2)
    by (cases "isRecording (updateCharts d s)")
       (auto simp: step_def ws_onmessage_def updateDashboard_def Let_def)
  ultimately show ?thesis using e p by (simp add: tracks_cong [of s' "updateCharts d s"])
qed

lemma accepted_Cons: "accepted parse (e # es) = accepted parse [e] @ accepted parse es"
  by (cases e) (simp_all split: option.splits)

lemma tracks_run:
  "tracks s ds \<Longrightarrow> run parse s evs = Some s' \<Longrightarrow> tracks s' (ds @ accepted parse evs)"
proof (induction evs arbitrary: s ds)
  case Nil
  then show ?case by simp
next
  case (Cons e es)
  from Cons.prems(2) obtain s1 where s1: "step parse s e = Some s1" and r: "run parse s1 es = Some s'"
    by (auto split: option.splits)
  from Cons.prems(1) s1 have "tracks s1 (ds @ accepted parse [e])" by (rule tracks_step)
  from Cons.IH [OF this r] show ?case using accepted_Cons [of parse e es] by simp
qed

lemma tracks_init: "tracks (init pg t0) []"
  by (simp add: tracks_def init_def connectWebSocket_def Let_def)

lemmas handler_defs =
  toggleRecording_def startRecording_def stopRecording_def auto_stop_def clearInterval_def
  setTimeout_def connectWebSocket_def ws_onopen_def ws_onclose_def ws_onerror_def
  updateConnectionStatus_def run_callback_def

lemma accepted_replicate:
  "parse raw = Some d \<Longrightarrow> accepted parse (replicate n (Ws_message raw)) = replicate n d"
  by (induction n) simp_all

lemma run_messages_total:
  "\<exists>s'. run parse s (replicate n (Ws_message raw)) = Some s'"
  by (induction n arbitrary: s) (simp_all add: step_def)

text \<open>
  The four scalar reads, written out on the fields of the snapshot.
\<close>

lemma cpu_percent_or0_fields:
  "cpu_percent_or0 = (\<lambda>d. case cpu d of None \<Rightarrow> 0 | Some c \<Rightarrow> percent c)"
  by (simp add: fun_eq_iff cpu_percent_or0_def)

lemma memory_percent_or0_fields:
  "memory_percent_or0 =
     (\<lambda>d. case Option.bind (memory d) virtual of None \<Rightarrow> 0 | Some v \<Rightarrow> virtual_percent v)"
  by (auto simp: fun_eq_iff memory_percent_or0_def split: option.splits)

lemma up_kb_fields:
  "up_kb = (\<lambda>d. (case Option.bind (Option.bind (network d) speed) upload_bytes_per_sec of
                    None \<Rightarrow> 0 | Some u \<Rightarrow> u) / 1024)"
  by (auto simp: fun_eq_iff up_kb_def upload_or0_def split: option.splits)

lemma down_kb_fields:
  "down_kb = (\<lambda>d. (case Option.bind (Option.bind (network d) speed) download_bytes_per_sec of
                    None \<Rightarrow> 0 | Some u \<Rightarrow> u) / 1024)"
  by (auto simp: fun_eq_iff down_kb_def download_or0_def split: option.splits)

lemma accepted_messages:
  "\<forall>r \<in> set raws. parse r \<noteq> None
   \<Longrightarrow> accepted parse (map Ws_message raws) = map (\<lambda>r. the (parse r)) raws"
  by (induction raws) auto

lemma run_messages:
  "\<exists>s'. run parse s (map Ws_message raws) = Some s'"
  by (induction raws arbitrary: s) (simp_all add: step_def)

text \<open>
  Claim C2. After any run of events from page load, each of the four histories holds,
  in arrival order and oldest first, the values of the last 60 ingested snapshots (of all
  of them while fewer than 60 have arrived): \<^verbatim>\<open>cpu.percent\<close>, \<^verbatim>\<open>memory.virtual.percent\<close>,
  and the upload and the download rate in bytes per second divided by 1024, each taken as
  0 where the snapshot lacks it. The length of each history is the smaller of 60 and the
  number \<open>N\<close> of snapshots ingested: exactly 60 for \<open>N > 60\<close>, and \<open>N\<close> for
  \<open>N \<le> 60\<close>.
\<close>

theorem ring_history_fifo:
  assumes "run parse (init pg t0) evs = Some s"
  shows "hist_cpu (historyData s) =
           map (\<lambda>d. case cpu d of None \<Rightarrow> 0 | Some c \<Rightarrow> percent c)
             (drop (length (accepted parse evs) - 60) (accepted parse evs))
       \<and> hist_memory (historyData s) =
           map (\<lambda>d. case Option.bind (memory d) virtual of
                       None \<Rightarrow> 0 | Some v \<Rightarrow> virtual_percent v)
             (drop (length (accepted parse evs) - 60) (accepted parse evs))
       \<and> upload (hist_network (historyData s)) =
           map (\<lambda>d. (case Option.bind (Option.bind (network d) speed) upload_bytes_per_sec of
                        None \<Rightarrow> 0 | Some u \<Rightarrow> u) / 1024)
             (drop (length (accepted parse evs) - 60) (accepted parse evs))
       \<and> download (hist_network (historyData s)) =
           map (\<lambda>d. (case Option.bind (Option.bind (network d) speed) download_bytes_per_sec of
                        None \<Rightarrow> 0 | Some u \<Rightarrow> u) / 1024)
             (drop (length (accepted parse evs) - 60) (accepted parse evs))
       \<and> length (hist_cpu (historyData s)) = min (length (accepted parse evs)) 60
       \<and> length (hist_memory (historyData s)) = min (length (accepted parse evs)) 60
       \<and> length (upload (hist_network (historyData s))) = min (length (accepted parse evs)) 60
       \<and> length (download (hist_network (historyData s))) = min (length (accepted parse evs)) 60"
proof -
  have "tracks s (accepted parse evs)"
    using tracks_run [OF tracks_init assms] by simp
  then have "hist_cpu (historyData s) =
           map cpu_percent_or0 (drop (length (accepted parse evs) - 60) (accepted parse evs))
       \<and> hist_memory (historyData s) =
           map memory_percent_or0 (drop (length (accepted parse evs) - 60) (accepted parse evs))
       \<and> upload (hist_network (historyData s)) =
           map up_kb (drop (length (accepted parse evs) - 60) (accepted parse evs))
       \<and> download (hist_network (historyData s)) =
           map down_kb (drop (length (accepted parse evs) - 60) (accepted parse evs))
       \<and> length (hist_cpu (historyData s)) = min (length (accepted parse evs)) 60
       \<and> length (hist_memory (historyData s)) = min (length (accepted parse evs)) 60
       \<and> length (upload (hist_network (historyData s))) = min (length (accepted parse evs)) 60
       \<and> length (download (hist_network (historyData s))) = min (length (accepted parse evs)) 60"
    by (simp add: tracks_def Let_def MAX_HISTORY_def min_def)
  then show ?thesis
    unfolding cpu_percent_or0_fields memory_percent_or0_fields up_kb_fields down_kb_fields .
qed

text \<open>
  Sixty-one messages: A, then B fifty-nine times, then C. The values of A have left the
  histories; those of B and C are there in arrival order.
\<close>

theorem ring_history_fifo_witness:
  "historyData (the (run parse_samples (init page_html 0)
       (map Ws_message (''A'' # replicate 59 ''B'' @ [''C'']))))
   = \<lparr>hist_cpu = replicate 59 20 @ [30],
      hist_memory = replicate 59 50 @ [60],
      hist_network = \<lparr>upload = replicate 59 3 @ [5], download = replicate 59 4 @ [6]\<rparr>\<rparr>"
proof -
  let ?raws = "''A'' # replicate 59 ''B'' @ [''C'']"
  obtain s where r: "run parse_samples (init page_html 0) (map Ws_message ?raws) = Some s"
    using run_messages by blast
  have p: "parse_samples ''A'' = Some (full_sample 10 40 1024 2048)"
    "parse_samples ''B'' = Some (full_sample 20 50 3072 4096)"
    "parse_samples ''C'' = Some (full_sample 30 60 5120 6144)"
    by (simp_all add: parse_samples_def)
  have "\<forall>r \<in> set ?raws. parse_samples r \<noteq> None"
    using p by auto
  then have a: "accepted parse_samples (map Ws_message ?raws)
                = map (\<lambda>r. the (parse_samples r)) ?raws"
    by (rule accepted_messages)
  have a': "accepted parse_samples (map Ws_message ?raws)
            = full_sample 10 40 1024 2048 # replicate 59 (full_sample 20 50 3072 4096)
              @ [full_sample 30 60 5120 6144]"
    unfolding a by (simp add: p)
  from ring_history_fifo [OF r]
  have "hist_cpu (historyData s) = replicate 59 20 @ [30]"
    and "hist_memory (historyData s) = replicate 59 50 @ [60]"
    and "upload (hist_network (historyData s)) = replicate 59 3 @ [5]"
    and "download (hist_network (historyData s)) = replicate 59 4 @ [6]"
    unfolding a' by (simp_all add: full_sample_def)
  then show ?thesis
    unfolding r by (cases "historyData s"; cases "hist_network (historyData s)") simp
qed

text \<open>
  Claim C9. After any run of events from page load, the upload history and the download
  history have the same length, at most 60, and position \<open>i\<close> of both comes from the same
  snapshot: zipped together they are the pairs of upload and download rate of the last 60
  ingested snapshots.
\<close>

theorem network_histories_aligned:
  assumes "run parse (init pg t0) evs = Some s"
  shows "length (upload (hist_network (historyData s)))
           = length (download (hist_network (historyData s)))
       \<and> length (upload (hist_network (historyData s))) \<le> 60
       \<and> length (download (hist_network (historyData s))) \<le> 60
       \<and> zip (upload (hist_network (historyData s))) (download (hist_network (historyData s)))
           = map (\<lambda>d. (up_kb d, down_kb d))
               (drop (length (accepted parse evs) - 60) (accepted parse evs))"
proof -
  have "tracks s (accepted parse evs)"
    using tracks_run [OF tracks_init assms] by simp
  then have u: "upload (hist_network (historyData s)) =
                  map up_kb (drop (length (accepted parse evs) - 60) (accepted parse evs))"
    and w: "download (hist_network (historyData s)) =
                  map down_kb (drop (length (accepted parse evs) - 60) (accepted parse evs))"
    by (simp_all add: tracks_def Let_def MAX_HISTORY_def)
  have z: "zip (map up_kb ds) (map down_kb ds) = map (\<lambda>d. (up_kb d, down_kb d)) ds" for ds
    by (induction ds) simp_all
  have l: "length (drop (length (accepted parse evs) - 60) (accepted parse evs)) \<le> 60"
    by simp
  show ?thesis
    unfolding u w z using l by simp
qed

text \<open>One ingested message: one pair.\<close>

theorem network_histories_aligned_witness:
  "zip (upload (hist_network (historyData (the (run parse_sample (init page_html 0)
          [Ws_message ''{}''])))))
       (download (hist_network (historyData (the (run parse_sample (init page_html 0)
          [Ws_message ''{}''])))))
   = [(0, 0)]"
  using network_histories_aligned [of parse_sample page_html 0 "[Ws_message ''{}'']"
      "the (run parse_sample (init page_html 0) [Ws_message ''{}''])"]
  by (simp add: step_def parse_sample_def ws_onmessage_def up_kb_def down_kb_def
      upload_or0_def download_or0_def snapshot_empty_def)

section \<open>Timer handles\<close>

lemma downloadPDF_frame:
  "isRecording (downloadPDF s) = isRecording s"
  "page (downloadPDF s) = page s"
  "recordingData (downloadPDF s) = recordingData s"
  "recordingStartTime (downloadPDF s) = recordingStartTime s"
  "timeouts (downloadPDF s) = timeouts s"
  "next_handle (downloadPDF s) = next_handle s"
  "recordingTimer (downloadPDF s) = recordingTimer s"
  by (simp_all add: downloadPDF_def)

lemma timers_ok_keep:
  assumes "timers_ok s" and "set (timeouts s') \<subseteq> set (timeouts s)"
    and "next_handle s' = next_handle s" and "recordingTimer s' = recordingTimer s"
  shows "timers_ok s'"
  using assms unfolding timers_ok_def by (metis subsetD)

lemma stopRecording_timers:
  "set (timeouts (stopRecording s)) \<subseteq> set (timeouts s)"
  "next_handle (stopRecording s) = next_handle s"
  "recordingTimer (stopRecording s) = recordingTimer s"
  by (cases "recordingTimer s"; auto simp: stopRecording_def clearInterval_def Let_def)+

lemma timers_ok_step:
  assumes "timers_ok s" and "step parse s e = Some s'"
  shows "timers_ok s'"
proof (cases e)
  case Click_startRecordingBtn
  show ?thesis
  proof (cases "isRecording s")
    case True
    with Click_startRecordingBtn assms(2) stopRecording_timers [of s] show ?thesis
      by (intro timers_ok_keep [OF assms(1)]) (auto simp: step_def toggleRecording_def Let_def)
  next
    case False
    with Click_startRecordingBtn assms(2)
    have "timeouts s' = timeouts s @ [(Suc (next_handle s), clock s + RECORDING_DURATION, Auto_stop)]"
      and "next_handle s' = Suc (Suc (next_handle s))"
      and "recordingTimer s' = Some (next_handle s)"
      by (auto simp: step_def toggleRecording_def startRecording_def setTimeout_def Let_def)
    with assms(1) show ?thesis
      unfolding timers_ok_def by (auto simp: less_Suc_eq)
  qed
next
  case Click_downloadPdfBtn
  with assms(2) show ?thesis
    by (intro timers_ok_keep [OF assms(1)]; cases "downloadPdfBtn_disabled (page s)")
       (auto simp: step_def downloadPDF_frame)
next
  case (Ws_message raw)
  with assms(2) show ?thesis
    by (intro timers_ok_keep [OF assms(1)]; cases "parse raw"; cases "isRecording s")
       (auto simp: step_def ws_onmessage_def updateDashboard_def updateCharts_def Let_def)
next
  case (Timeout_fires h)
  show ?thesis
  proof (cases "filter (\<lambda>t. fst t = h) (timeouts s)")
    case Nil
    with Timeout_fires assms(2) show ?thesis by (simp add: step_def)
  next
    case (Cons t ts)
    let ?s1 = "s\<lparr>timeouts := filter (\<lambda>t. fst t \<noteq> h) (timeouts s)\<rparr>"
    from Cons Timeout_fires assms(2) have s': "s' = run_callback (snd (snd t)) ?s1"
      by (cases "fst (snd t) \<le> clock s") (auto simp: step_def)
    have "set (timeouts (run_callback cb ?s1)) \<subseteq> set (timeouts s)
          \<and> next_handle (run_callback cb ?s1) = next_handle s
          \<and> recordingTimer (run_callback cb ?s1) = recordingTimer s" for cb
      using stopRecording_timers [of ?s1]
      by (cases cb; cases "isRecording s")
         (auto simp: run_callback_def auto_stop_def connectWebSocket_def Let_def)
    with s' show ?thesis by (intro timers_ok_keep [OF assms(1)]) auto
  qed
next
  case (Interval_fires h)
  with assms(2) show ?thesis
    by (intro timers_ok_keep [OF assms(1)]; cases "h \<in> set (intervals s)")
       (auto simp: step_def)
next
  case Ws_close
  with assms(2) have "timeouts s' = timeouts s @ [(next_handle s, clock s + 3000, Reconnect)]"
    and "next_handle s' = Suc (next_handle s)"
    and "recordingTimer s' = recordingTimer s"
    by (auto simp: step_def ws_onclose_def setTimeout_def updateConnectionStatus_def)
  with assms(1) show ?thesis
    unfolding timers_ok_def by (auto simp: less_Suc_eq)
next
  case Ws_open
  with assms(2) show ?thesis
    by (intro timers_ok_keep [OF assms(1)])
       (auto simp: step_def ws_onopen_def updateConnectionStatus_def)
next
  case Ws_error
  with assms(2) have "timeouts s' = timeouts s @ [(next_handle s, clock s + 3000, Reconnect)]"
    and "next_handle s' = Suc (next_handle s)"
    and "recordingTimer s' = recordingTimer s"
    by (auto simp: step_def ws_onclose_def ws_onerror_def setTimeout_def
        updateConnectionStatus_def)
  with assms(1) show ?thesis
    unfolding timers_ok_def by (auto simp: less_Suc_eq)
next
  case (Advance d)
  with assms(2) show ?thesis
    by (intro timers_ok_keep [OF assms(1)]) (auto simp: step_def)
qed

lemma timers_ok_run:
  "timers_ok s \<Longrightarrow> run parse s evs = Some s' \<Longrightarrow> timers_ok s'"
proof (induction evs arbitrary: s)
  case Nil
  then show ?case by simp
next
  case (Cons e es)
  from Cons.prems(2) obtain s1 where s1: "step parse s e = Some s1"
    and r: "run parse s1 es = Some s'"
    by (auto split: option.splits)
  from Cons.prems(1) s1 have "timers_ok s1" by (rule timers_ok_step)
  from Cons.IH [OF this r] show ?case .
qed

lemma timers_ok_init: "timers_ok (init pg t0)"
  by (simp add: timers_ok_def init_def connectWebSocket_def)

lemma stopRecording_keeps_timeouts:
  assumes "timers_ok s"
  shows "timeouts (stopRecording s) = timeouts s"
proof (cases "recordingTimer s")
  case None
  then show ?thesis by (simp add: stopRecording_def clearInterval_def Let_def)
next
  case (Some h)
  with assms have "\<forall>t \<in> set (timeouts s). fst t \<noteq> h"
    by (simp add: timers_ok_def)
  then have "filter (\<lambda>t. fst t \<noteq> h) (timeouts s) = timeouts s"
    by (simp add: filter_id_conv)
  with Some show ?thesis by (simp add: stopRecording_def clearInterval_def Let_def)
qed

section \<open>The deadline of a recording\<close>

text \<open>
  Claim C1 says that a manual stop cancels the session's deadline timer and that a late
  deadline signal cannot affect a later session. \<^verbatim>\<open>stopRecording\<close> clears the interval in
  \<^verbatim>\<open>recordingTimer\<close> only; the handle of the deadline timeout is never kept. Evaluated on
  the trace: start at 0 ms, manual stop at 60000 ms, second start at 120000 ms. After the
  manual stop the timeout of the first session (handle 3, due at 300000 ms) is still
  pending. At 300000 ms the second session is recording; the timeout of the first session
  fires, finds \<^verbatim>\<open>isRecording\<close> true and stops the second session 180000 ms after its
  start, short of \<open>RECORDING_DURATION\<close>.
\<close>

theorem stale_deadline_stops_next_session:
  "map_option (\<lambda>s. (isRecording s, recordingStartTime s, clock s, timeouts s))
     (run parse_sample (init page_html 0)
       [Click_startRecordingBtn, Advance 60000, Click_startRecordingBtn])
   = Some (False, Some 0, 60000, [(3, 300000, Auto_stop)])
   \<and> map_option (\<lambda>s. (isRecording s, recordingStartTime s, clock s))
     (run parse_sample (init page_html 0)
       [Click_startRecordingBtn, Advance 60000, Click_startRecordingBtn,
        Advance 60000, Click_startRecordingBtn, Advance 180000])
   = Some (True, Some 120000, 300000)
   \<and> map_option (\<lambda>s. (isRecording s, recordingStartTime s, clock s))
     (run parse_sample (init page_html 0)
       [Click_startRecordingBtn, Advance 60000, Click_startRecordingBtn,
        Advance 60000, Click_startRecordingBtn, Advance 180000, Timeout_fires 3])
   = Some (False, Some 120000, 300000)
   \<and> 300000 - 120000 < RECORDING_DURATION"
  by (simp add: step_def init_def handler_defs Let_def RECORDING_DURATION_def)

section \<open>Missing subsections\<close>

text \<open>
  Claim C3 says that a missing subsection leaves its history unchanged for that tick and
  that 0 is never appended in its place. For the message \<^verbatim>\<open>{}\<close> on a freshly loaded
  page every history grows from empty to the single value 0.
\<close>

theorem missing_metric_pushes_zero_example:
  "cpu snapshot_empty = None \<and> memory snapshot_empty = None \<and> network snapshot_empty = None
   \<and> historyData (init page_html 0)
       = \<lparr>hist_cpu = [], hist_memory = [], hist_network = \<lparr>upload = [], download = []\<rparr>\<rparr>
   \<and> historyData (updateDashboard snapshot_empty (init page_html 0))
       = \<lparr>hist_cpu = [0], hist_memory = [0], hist_network = \<lparr>upload = [0], download = [0]\<rparr>\<rparr>"
  by (simp add: snapshot_empty_def init_def connectWebSocket_def updateDashboard_def
      updateCharts_def Let_def MAX_HISTORY_def cpu_percent_or0_def memory_percent_or0_def
      upload_or0_def download_or0_def)

text \<open>
  Claim C3, amended. When the \<^verbatim>\<open>cpu\<close> subsection is missing, when \<^verbatim>\<open>memory\<close> or
  \<^verbatim>\<open>memory.virtual\<close> is missing, or when \<^verbatim>\<open>network\<close> or \<^verbatim>\<open>network.speed\<close> is missing, the
  value 0 is appended to the corresponding history for that tick, and the oldest value is
  dropped when the history is then longer than \<open>MAX_HISTORY\<close>.
\<close>

theorem missing_metric_appends_zero:
  "(cpu d = None \<longrightarrow>
      hist_cpu (historyData (updateDashboard d s)) =
        (if MAX_HISTORY < length (hist_cpu (historyData s) @ [0])
         then tl (hist_cpu (historyData s) @ [0]) else hist_cpu (historyData s) @ [0]))
   \<and> (Option.bind (memory d) virtual = None \<longrightarrow>
      hist_memory (historyData (updateDashboard d s)) =
        (if MAX_HISTORY < length (hist_memory (historyData s) @ [0])
         then tl (hist_memory (historyData s) @ [0]) else hist_memory (historyData s) @ [0]))
   \<and> (Option.bind (network d) speed = None \<longrightarrow>
      upload (hist_network (historyData (updateDashboard d s))) =
        (if MAX_HISTORY < length (upload (hist_network (historyData s)) @ [0])
         then tl (upload (hist_network (historyData s)) @ [0])
         else upload (hist_network (historyData s)) @ [0])
      \<and> download (hist_network (historyData (updateDashboard d s))) =
        (if MAX_HISTORY < length (upload (hist_network (historyData s)) @ [0])
         then tl (download (hist_network (historyData s)) @ [0])
         else download (hist_network (historyData s)) @ [0]))"
  by (auto simp: updateDashboard_def updateCharts_def Let_def cpu_percent_or0_def
      memory_percent_or0_def upload_or0_def download_or0_def
      split: option.splits Option.bind_splits)

theorem missing_metric_appends_zero_witness:
  "hist_cpu (historyData (updateDashboard snapshot_empty (init page_html 0))) = [0]
   \<and> hist_memory (historyData (updateDashboard snapshot_empty (init page_html 0))) = [0]
   \<and> upload (hist_network (historyData (updateDashboard snapshot_empty (init page_html 0)))) = [0]
   \<and> download (hist_network (historyData (updateDashboard snapshot_empty (init page_html 0)))) = [0]"
  using missing_metric_appends_zero [of snapshot_empty "init page_html 0"]
  by (simp add: snapshot_empty_def init_def connectWebSocket_def MAX_HISTORY_def)

section \<open>Statistics\<close>

lemma foldl_plus_sum_list: "foldl (+) a xs = a + sum_list xs" for a :: real
  by (induction xs arbitrary: a) (simp_all add: add.assoc)

lemma avg_nonempty: "xs \<noteq> [] \<Longrightarrow> avg xs = Num (sum_list xs / real (length xs))"
  by (simp add: avg_def js_div_def foldl_plus_sum_list)

lemma Math_min_nonempty: "Math_min xs = Num (Min (set xs))" if "xs \<noteq> []"
proof (cases xs)
  case Nil
  with that show ?thesis by simp
next
  case (Cons a as)
  then show ?thesis using Min.set_eq_fold [of a as] by simp
qed

lemma Math_max_nonempty: "Math_max xs = Num (Max (set xs))" if "xs \<noteq> []"
proof (cases xs)
  case Nil
  with that show ?thesis by simp
next
  case (Cons a as)
  then show ?thesis using Max.set_eq_fold [of a as] by simp
qed

text \<open>
  Claim C4 says that the summary holds mean, minimum and maximum for each of the four
  metrics. The object that \<^verbatim>\<open>calculateStats\<close> returns for the network has the two fields
  \<^verbatim>\<open>uploadAvg\<close> and \<^verbatim>\<open>downloadAvg\<close> and no other: for the buffer of the example it is
  the pair of means 2 and 10, while the minimum and maximum of the upload series are 0 and
  5 and those of the download series 0 and 20.
\<close>

theorem network_stats_lack_min_max:
  "stats_network (calculateStats stats_example) = \<lparr>uploadAvg = Num 2, downloadAvg = Num 10\<rparr>
   \<and> Math_min (map up_kb (recordingData stats_example)) = Num 0
   \<and> Math_max (map up_kb (recordingData stats_example)) = Num 5
   \<and> Math_min (map down_kb (recordingData stats_example)) = Num 0
   \<and> Math_max (map down_kb (recordingData stats_example)) = Num 20"
  by (simp add: stats_example_def net_sample_def snapshot_empty_def calculateStats_def Let_def
      avg_def js_div_def up_kb_def down_kb_def upload_or0_def download_or0_def)

text \<open>
  Claim C4, amended. For every non-empty buffer \<^verbatim>\<open>calculateStats\<close> returns the arithmetic
  mean, the minimum and the maximum of \<^verbatim>\<open>cpu.percent\<close> and of \<^verbatim>\<open>memory.virtual.percent\<close>,
  and the arithmetic mean only of the upload and of the download rate divided by 1024. A
  snapshot that lacks the field counts as 0 and stays in the denominator, which is the
  length of the buffer.
\<close>

theorem calculateStats_nonempty:
  assumes "recordingData s \<noteq> []"
  shows "stats_cpu (calculateStats s) =
           \<lparr>s_avg = Num (sum_list (map (\<lambda>d. case cpu d of None \<Rightarrow> 0 | Some c \<Rightarrow> percent c)
                               (recordingData s))
                          / real (length (recordingData s))),
            s_min = Num (Min (set (map (\<lambda>d. case cpu d of None \<Rightarrow> 0 | Some c \<Rightarrow> percent c)
                               (recordingData s)))),
            s_max = Num (Max (set (map (\<lambda>d. case cpu d of None \<Rightarrow> 0 | Some c \<Rightarrow> percent c)
                               (recordingData s))))\<rparr>
       \<and> stats_memory (calculateStats s) =
           \<lparr>s_avg = Num (sum_list (map (\<lambda>d. case Option.bind (memory d) virtual of
                                           None \<Rightarrow> 0 | Some v \<Rightarrow> virtual_percent v)
                               (recordingData s))
                          / real (length (recordingData s))),
            s_min = Num (Min (set (map (\<lambda>d. case Option.bind (memory d) virtual of
                                           None \<Rightarrow> 0 | Some v \<Rightarrow> virtual_percent v)
                               (recordingData s)))),
            s_max = Num (Max (set (map (\<lambda>d. case Option.bind (memory d) virtual of
                                           None \<Rightarrow> 0 | Some v \<Rightarrow> virtual_percent v)
                               (recordingData s))))\<rparr>
       \<and> stats_network (calculateStats s) =
           \<lparr>uploadAvg = Num (sum_list (map (\<lambda>d.
                  (case Option.bind (Option.bind (network d) speed) upload_bytes_per_sec of
                     None \<Rightarrow> 0 | Some u \<Rightarrow> u) / 1024) (recordingData s))
                              / real (length (recordingData s))),
            downloadAvg = Num (sum_list (map (\<lambda>d.
                  (case Option.bind (Option.bind (network d) speed) download_bytes_per_sec of
                     None \<Rightarrow> 0 | Some u \<Rightarrow> u) / 1024) (recordingData s))
                              / real (length (recordingData s)))\<rparr>"
proof -
  let ?b = "recordingData s"
  have ne: "map f ?b \<noteq> []" for f :: "snapshot \<Rightarrow> real"
    using assms by simp
  have up: "(\<lambda>d. upload_or0 d / 1024) = up_kb" and dn: "(\<lambda>d. download_or0 d / 1024) = down_kb"
    by (simp_all add: up_kb_def down_kb_def fun_eq_iff)
  have 1: "stats_cpu (calculateStats s) =
           \<lparr>s_avg = avg (map cpu_percent_or0 ?b), s_min = Math_min (map cpu_percent_or0 ?b),
            s_max = Math_max (map cpu_percent_or0 ?b)\<rparr>"
    by (simp add: calculateStats_def Let_def)
  have 2: "stats_memory (calculateStats s) =
           \<lparr>s_avg = avg (map memory_percent_or0 ?b), s_min = Math_min (map memory_percent_or0 ?b),
            s_max = Math_max (map memory_percent_or0 ?b)\<rparr>"
    by (simp add: calculateStats_def Let_def)
  have 3: "stats_network (calculateStats s) =
           \<lparr>uploadAvg = avg (map up_kb ?b), downloadAvg = avg (map down_kb ?b)\<rparr>"
    by (simp add: calculateStats_def Let_def up dn)
  have "stats_cpu (calculateStats s) =
           \<lparr>s_avg = Num (sum_list (map cpu_percent_or0 ?b) / real (length ?b)),
            s_min = Num (Min (set (map cpu_percent_or0 ?b))),
            s_max = Num (Max (set (map cpu_percent_or0 ?b)))\<rparr>
       \<and> stats_memory (calculateStats s) =
           \<lparr>s_avg = Num (sum_list (map memory_percent_or0 ?b) / real (length ?b)),
            s_min = Num (Min (set (map memory_percent_or0 ?b))),
            s_max = Num (Max (set (map memory_percent_or0 ?b)))\<rparr>
       \<and> stats_network (calculateStats s) =
           \<lparr>uploadAvg = Num (sum_list (map up_kb ?b) / real (length ?b)),
            downloadAvg = Num (sum_list (map down_kb ?b) / real (length ?b))\<rparr>"
    unfolding 1 2 3
    using avg_nonempty [OF ne] Math_min_nonempty [OF ne] Math_max_nonempty [OF ne]
    by simp
  then show ?thesis
    unfolding cpu_percent_or0_fields memory_percent_or0_fields up_kb_fields down_kb_fields .
qed

text \<open>
  A buffer of three snapshots, the second of them without any field: it is counted among
  the three and brings every minimum to 0.
\<close>

theorem calculateStats_nonempty_witness:
  "calculateStats stats_example_full =
     \<lparr>stats_cpu = \<lparr>s_avg = Num 20, s_min = Num 0, s_max = Num 50\<rparr>,
      stats_memory = \<lparr>s_avg = Num 40, s_min = Num 0, s_max = Num 80\<rparr>,
      stats_network = \<lparr>uploadAvg = Num 2, downloadAvg = Num 2\<rparr>\<rparr>"
proof -
  have d: "recordingData stats_example_full =
      [full_sample 10 40 1024 2048, snapshot_empty, full_sample 50 80 5120 4096]"
    by (simp add: stats_example_full_def)
  then have ne: "recordingData stats_example_full \<noteq> []" by simp
  from calculateStats_nonempty [OF ne]
  have "stats_cpu (calculateStats stats_example_full)
          = \<lparr>s_avg = Num 20, s_min = Num 0, s_max = Num 50\<rparr>"
    and "stats_memory (calculateStats stats_example_full)
          = \<lparr>s_avg = Num 40, s_min = Num 0, s_max = Num 80\<rparr>"
    and "stats_network (calculateStats stats_example_full)
          = \<lparr>uploadAvg = Num 2, downloadAvg = Num 2\<rparr>"
    unfolding d by (simp_all add: full_sample_def snapshot_empty_def)
  then show ?thesis
    by (cases "calculateStats stats_example_full") simp
qed

section \<open>Malformed messages\<close>

text \<open>
  Claim C5. When \<^verbatim>\<open>JSON.parse\<close> throws on a message, the handler ends with that
  exception before it has written anything: the whole state (the four histories, the
  recording buffer and all the rest) is as before, the message is not among the ingested
  ones, and every run of later events goes on as if the message had not arrived.
\<close>

theorem malformed_message_dropped:
  assumes "parse raw = None"
  shows "ws_onmessage parse raw s = Inl SyntaxError
       \<and> step parse s (Ws_message raw) = Some s
       \<and> run parse s (Ws_message raw # evs) = run parse s evs
       \<and> accepted parse (Ws_message raw # evs) = accepted parse evs"
  using assms by (simp add: ws_onmessage_def step_def)

text \<open>A text that is not JSON, followed by the message \<^verbatim>\<open>{}\<close>.\<close>

theorem malformed_message_dropped_witness:
  "step parse_sample (init page_html 0) (Ws_message ''{'') = Some (init page_html 0)
   \<and> run parse_sample (init page_html 0) [Ws_message ''{'', Ws_message ''{}'']
       = run parse_sample (init page_html 0) [Ws_message ''{}'']"
  using malformed_message_dropped [of parse_sample "''{''" "init page_html 0" "[Ws_message ''{}'']"]
  by (simp add: parse_sample_def)

section \<open>The empty buffer\<close>

lemma calculateStats_empty:
  "recordingData s = [] \<Longrightarrow> calculateStats s =
     \<lparr>stats_cpu = \<lparr>s_avg = NaN, s_min = Infinity, s_max = NegInfinity\<rparr>,
      stats_memory = \<lparr>s_avg = NaN, s_min = Infinity, s_max = NegInfinity\<rparr>,
      stats_network = \<lparr>uploadAvg = NaN, downloadAvg = NaN\<rparr>\<rparr>"
  by (simp add: calculateStats_def avg_def js_div_def)

text \<open>
  Claim C6 says that the summary of an empty buffer fails with an error. On a freshly
  loaded page the buffer is empty and \<^verbatim>\<open>calculateStats\<close> returns a summary: every mean
  is \<^verbatim>\<open>NaN\<close> (0 divided by 0), every minimum \<^verbatim>\<open>Infinity\<close> and every maximum
  \<^verbatim>\<open>-Infinity\<close>.
\<close>

theorem calculateStats_empty_example:
  "recordingData (init page_html 0) = []
   \<and> calculateStats (init page_html 0) =
     \<lparr>stats_cpu = \<lparr>s_avg = NaN, s_min = Infinity, s_max = NegInfinity\<rparr>,
      stats_memory = \<lparr>s_avg = NaN, s_min = Infinity, s_max = NegInfinity\<rparr>,
      stats_network = \<lparr>uploadAvg = NaN, downloadAvg = NaN\<rparr>\<rparr>"
proof -
  have e: "recordingData (init page_html 0) = []"
    by (simp add: init_def connectWebSocket_def)
  from e calculateStats_empty [OF e] show ?thesis by simp
qed

text \<open>
  Claim C6, amended. \<^verbatim>\<open>calculateStats\<close> on an empty buffer does not fail: it returns
  \<^verbatim>\<open>NaN\<close> for every mean, \<^verbatim>\<open>Infinity\<close> for every minimum and \<^verbatim>\<open>-Infinity\<close> for every
  maximum. The empty buffer is kept away from it by its only caller: \<^verbatim>\<open>downloadPDF\<close> with
  an empty buffer shows the "no data" alert and changes nothing else, without computing
  statistics.
\<close>

theorem empty_buffer_export:
  assumes "recordingData s = []"
  shows "calculateStats s =
     \<lparr>stats_cpu = \<lparr>s_avg = NaN, s_min = Infinity, s_max = NegInfinity\<rparr>,
      stats_memory = \<lparr>s_avg = NaN, s_min = Infinity, s_max = NegInfinity\<rparr>,
      stats_network = \<lparr>uploadAvg = NaN, downloadAvg = NaN\<rparr>\<rparr>
   \<and> downloadPDF s = s\<lparr>outputs := outputs s @ [Alert_no_data]\<rparr>"
  using assms calculateStats_empty [OF assms] by (simp add: downloadPDF_def)

theorem empty_buffer_export_witness:
  "outputs (downloadPDF (init page_html 0)) = [Alert_no_data]
   \<and> s_avg (stats_cpu (calculateStats (init page_html 0))) = NaN"
proof -
  have e: "recordingData (init page_html 0) = []"
    by (simp add: init_def connectWebSocket_def)
  have o: "outputs (init page_html 0) = []"
    by (simp add: init_def connectWebSocket_def)
  from empty_buffer_export [OF e] o show ?thesis by simp
qed

section \<open>Reconnection\<close>

lemma run_append:
  "run parse s es = Some s1 \<Longrightarrow> run parse s (es @ es') = run parse s1 es'"
  by (induction es arbitrary: s) (auto split: option.splits)

lemma run_single: "run parse s [e] = step parse s e"
  by (cases "step parse s e") simp_all

lemma reconnect_cycle:
  assumes "\<forall>t \<in> set (timeouts s). fst t < next_handle s"
    and "e = Ws_close \<or> e = Ws_error"
  shows "step parse s e
         = Some (s\<lparr>readyState := CLOSED,
                   page := (page s)\<lparr>status_dot := ''status-dot disconnected'',
                                     status_text := Txt_disconnected\<rparr>,
                   timeouts := timeouts s @ [(next_handle s, clock s + 3000, Reconnect)],
                   next_handle := Suc (next_handle s)\<rparr>)"
    and "d < 3000 \<Longrightarrow> run parse s [e, Advance d, Timeout_fires (next_handle s)] = None"
    and "run parse s [e, Advance 3000, Timeout_fires (next_handle s)]
         = Some (s\<lparr>ws := Suc (ws s),
                   readyState := CONNECTING,
                   page := (page s)\<lparr>status_dot := ''status-dot disconnected'',
                                     status_text := Txt_disconnected\<rparr>,
                   clock := clock s + 3000,
                   next_handle := Suc (next_handle s)\<rparr>)"
    and "run parse s [e, Advance 3000, Timeout_fires (next_handle s), Ws_open]
         = Some (s\<lparr>ws := Suc (ws s),
                   readyState := OPEN,
                   page := (page s)\<lparr>status_dot := ''status-dot connected'',
                                     status_text := Txt_connected\<rparr>,
                   clock := clock s + 3000,
                   next_handle := Suc (next_handle s)\<rparr>)"
proof -
  from assms(1) have ne: "\<forall>t \<in> set (timeouts s). fst t \<noteq> next_handle s" by auto
  have f: "filter (\<lambda>t. fst t = next_handle s) (timeouts s) = []"
    using ne by (simp add: filter_empty_conv)
  have g: "filter (\<lambda>t. fst t \<noteq> next_handle s) (timeouts s) = timeouts s"
    using ne by (simp add: filter_id_conv)
  show "step parse s e
         = Some (s\<lparr>readyState := CLOSED,
                   page := (page s)\<lparr>status_dot := ''status-dot disconnected'',
                                     status_text := Txt_disconnected\<rparr>,
                   timeouts := timeouts s @ [(next_handle s, clock s + 3000, Reconnect)],
                   next_handle := Suc (next_handle s)\<rparr>)"
    using assms(2) by (auto simp: step_def handler_defs)
  show "run parse s [e, Advance d, Timeout_fires (next_handle s)] = None" if "d < 3000"
    using that assms(2) by (auto simp: step_def handler_defs f g)
  show "run parse s [e, Advance 3000, Timeout_fires (next_handle s)]
         = Some (s\<lparr>ws := Suc (ws s),
                   readyState := CONNECTING,
                   page := (page s)\<lparr>status_dot := ''status-dot disconnected'',
                                     status_text := Txt_disconnected\<rparr>,
                   clock := clock s + 3000,
                   next_handle := Suc (next_handle s)\<rparr>)"
    using assms(2) by (auto simp: step_def handler_defs f g)
  show "run parse s [e, Advance 3000, Timeout_fires (next_handle s), Ws_open]
         = Some (s\<lparr>ws := Suc (ws s),
                   readyState := OPEN,
                   page := (page s)\<lparr>status_dot := ''status-dot connected'',
                                     status_text := Txt_connected\<rparr>,
                   clock := clock s + 3000,
                   next_handle := Suc (next_handle s)\<rparr>)"
    using assms(2) by (auto simp: step_def handler_defs f g)
qed

text \<open>
  Claim C7. In every state reached from page load, when the connection closes, with an
  error or without, the socket is closed, the displayed status is \<^verbatim>\<open>disconnected\<close> and
  \<^verbatim>\<open>connectWebSocket\<close> is scheduled 3000 ms later. The delay is the same in every state:
  it does not grow, and nothing counts the attempts. The timeout cannot fire before the
  3000 ms have passed. When it fires, a new socket is constructed, which is connecting;
  when that socket opens, the connection is connected and shown as such.
\<close>

theorem reconnect_on_close:
  assumes "run parse (init pg t0) evs = Some s" and "e = Ws_close \<or> e = Ws_error"
  shows "map_option (\<lambda>s'. (connectionState s', status_dot (page s'), timeouts s'))
           (step parse s e)
         = Some (Disconnected, ''status-dot disconnected'',
                 timeouts s @ [(next_handle s, clock s + 3000, Reconnect)])
       \<and> (\<forall>d<3000. run parse s [e, Advance d, Timeout_fires (next_handle s)] = None)
       \<and> map_option (\<lambda>s'. (connectionState s', ws s', timeouts s'))
           (run parse s [e, Advance 3000, Timeout_fires (next_handle s)])
         = Some (Connecting, Suc (ws s), timeouts s)
       \<and> map_option (\<lambda>s'. (connectionState s', status_dot (page s'), ws s'))
           (run parse s [e, Advance 3000, Timeout_fires (next_handle s), Ws_open])
         = Some (Connected, ''status-dot connected'', Suc (ws s))"
proof -
  from timers_ok_run [OF timers_ok_init assms(1)]
  have fresh: "\<forall>t \<in> set (timeouts s). fst t < next_handle s"
    by (simp add: timers_ok_def)
  note c = reconnect_cycle [OF fresh assms(2), where parse = parse]
  have 1: "map_option (\<lambda>s'. (connectionState s', status_dot (page s'), timeouts s'))
           (step parse s e)
         = Some (Disconnected, ''status-dot disconnected'',
                 timeouts s @ [(next_handle s, clock s + 3000, Reconnect)])"
    unfolding c(1) by (simp add: connectionState_def)
  have 2: "\<forall>d<3000. run parse s [e, Advance d, Timeout_fires (next_handle s)] = None"
    using c(2) by blast
  have 3: "map_option (\<lambda>s'. (connectionState s', ws s', timeouts s'))
           (run parse s [e, Advance 3000, Timeout_fires (next_handle s)])
         = Some (Connecting, Suc (ws s), timeouts s)"
    unfolding c(3) by (simp add: connectionState_def)
  have 4: "map_option (\<lambda>s'. (connectionState s', status_dot (page s'), ws s'))
           (run parse s [e, Advance 3000, Timeout_fires (next_handle s), Ws_open])
         = Some (Connected, ''status-dot connected'', Suc (ws s))"
    unfolding c(4) by (simp add: connectionState_def)
  from 1 2 3 4 show ?thesis by blast
qed

text \<open>
  A connection that opens and fails, a second socket that fails as well: the third
  socket is constructed 3000 ms after the second failure and opens.
\<close>

theorem reconnect_on_close_witness:
  "map_option (\<lambda>s'. (connectionState s', status_dot (page s'), timeouts s'))
     (run parse_sample (init page_html 0)
        [Ws_open, Ws_error, Advance 3000, Timeout_fires 2, Ws_error])
   = Some (Disconnected, ''status-dot disconnected'', [(3, 6000, Reconnect)])
   \<and> run parse_sample (init page_html 0)
        [Ws_open, Ws_error, Advance 3000, Timeout_fires 2, Ws_error, Advance 2999, Timeout_fires 3]
     = None
   \<and> map_option (\<lambda>s'. (connectionState s', ws s', timeouts s'))
     (run parse_sample (init page_html 0)
        [Ws_open, Ws_error, Advance 3000, Timeout_fires 2, Ws_error, Advance 3000, Timeout_fires 3])
   = Some (Connecting, 3, [])
   \<and> map_option (\<lambda>s'. (connectionState s', status_dot (page s'), ws s'))
     (run parse_sample (init page_html 0)
        [Ws_open, Ws_error, Advance 3000, Timeout_fires 2, Ws_error, Advance 3000, Timeout_fires 3,
         Ws_open])
   = Some (Connected, ''status-dot connected'', 3)"
proof -
  let ?pre = "[Ws_open, Ws_error, Advance 3000, Timeout_fires 2]"
  let ?s = "the (run parse_sample (init page_html 0) ?pre)"
  have r: "run parse_sample (init page_html 0) ?pre = Some ?s"
    by (simp add: step_def init_def handler_defs)
  have n: "next_handle ?s = 3" "ws ?s = 2" "clock ?s = 3000" "timeouts ?s = []"
    by (simp_all add: step_def init_def handler_defs)
  have a1: "run parse_sample (init page_html 0)
              [Ws_open, Ws_error, Advance 3000, Timeout_fires 2, Ws_error]
            = step parse_sample ?s Ws_error"
    using run_append [OF r, of "[Ws_error]"] by (simp only: append.simps run_single)
  have a2: "run parse_sample (init page_html 0)
              [Ws_open, Ws_error, Advance 3000, Timeout_fires 2, Ws_error, Advance 2999,
               Timeout_fires 3]
            = run parse_sample ?s [Ws_error, Advance 2999, Timeout_fires 3]"
    using run_append [OF r, of "[Ws_error, Advance 2999, Timeout_fires 3]"]
    by (simp only: append.simps)
  have a3: "run parse_sample (init page_html 0)
              [Ws_open, Ws_error, Advance 3000, Timeout_fires 2, Ws_error, Advance 3000,
               Timeout_fires 3]
            = run parse_sample ?s [Ws_error, Advance 3000, Timeout_fires 3]"
    using run_append [OF r, of "[Ws_error, Advance 3000, Timeout_fires 3]"]
    by (simp only: append.simps)
  have a4: "run parse_sample (init page_html 0)
              [Ws_open, Ws_error, Advance 3000, Timeout_fires 2, Ws_error, Advance 3000,
               Timeout_fires 3, Ws_open]
            = run parse_sample ?s [Ws_error, Advance 3000, Timeout_fires 3, Ws_open]"
    using run_append [OF r, of "[Ws_error, Advance 3000, Timeout_fires 3, Ws_open]"]
    by (simp only: append.simps)
  from reconnect_on_close [OF r, of Ws_error]
  have "map_option (\<lambda>s'. (connectionState s', status_dot (page s'), timeouts s'))
          (step parse_sample ?s Ws_error)
        = Some (Disconnected, ''status-dot disconnected'', [(3, 6000, Reconnect)])"
    and "run parse_sample ?s [Ws_error, Advance 2999, Timeout_fires 3] = None"
    and "map_option (\<lambda>s'. (connectionState s', ws s', timeouts s'))
          (run parse_sample ?s [Ws_error, Advance 3000, Timeout_fires 3])
        = Some (Connecting, 3, [])"
    and "map_option (\<lambda>s'. (connectionState s', status_dot (page s'), ws s'))
          (run parse_sample ?s [Ws_error, Advance 3000, Timeout_fires 3, Ws_open])
        = Some (Connected, ''status-dot connected'', 3)"
    unfolding n by simp_all
  then show ?thesis
    unfolding a1 a2 a3 a4 by (intro conjI)
qed

section \<open>Export\<close>

lemma export_ok_keep:
  assumes "export_ok pg s" and "isRecording s' = isRecording s"
    and "recordingStartTime s' = recordingStartTime s"
    and "downloadPdfBtn_disabled (page s') = downloadPdfBtn_disabled (page s)"
    and "recordingData s' = [] \<or> recordingData s' = recordingData s \<or> isRecording s"
  shows "export_ok pg s'"
  using assms by (auto simp: export_ok_def status_def split: if_splits)

lemma export_ok_stop: "export_ok pg s \<Longrightarrow> isRecording s \<Longrightarrow> export_ok pg (stopRecording s)"
  by (cases "recordingTimer s")
     (auto simp: export_ok_def status_def stopRecording_def clearInterval_def Let_def
           split: if_splits)

lemma export_ok_start: "export_ok pg (startRecording s)"
  by (simp add: export_ok_def status_def startRecording_def setTimeout_def Let_def)

lemma export_ok_page:
  "export_ok pg s \<Longrightarrow> export_ok pg (s\<lparr>page := (page s)\<lparr>startRecordingBtn := f\<rparr>\<rparr>)"
  by (auto simp: export_ok_def status_def split: if_splits)

lemma export_ok_step:
  assumes "export_ok pg s" and "step parse s e = Some s'"
  shows "export_ok pg s'"
proof (cases e)
  case Click_startRecordingBtn
  show ?thesis
  proof (cases "isRecording s")
    case True
    with Click_startRecordingBtn assms(2)
    have "s' = (stopRecording s)\<lparr>page := (page (stopRecording s))\<lparr>
                  startRecordingBtn := Face_start\<rparr>\<rparr>"
      by (simp add: step_def toggleRecording_def Let_def)
    with export_ok_page [OF export_ok_stop [OF assms(1) True]] show ?thesis by simp
  next
    case False
    with Click_startRecordingBtn assms(2)
    have "s' = (startRecording s)\<lparr>page := (page (startRecording s))\<lparr>
                  startRecordingBtn := Face_stop\<rparr>\<rparr>"
      by (simp add: step_def toggleRecording_def Let_def)
    with export_ok_page [OF export_ok_start] show ?thesis by simp
  qed
next
  case Click_downloadPdfBtn
  with assms(2) show ?thesis
    by (intro export_ok_keep [OF assms(1)]; cases "downloadPdfBtn_disabled (page s)")
       (auto simp: step_def downloadPDF_frame)
next
  case (Ws_message raw)
  with assms(2) show ?thesis
    by (intro export_ok_keep [OF assms(1)]; cases "parse raw"; cases "isRecording s")
       (auto simp: step_def ws_onmessage_def updateDashboard_def updateCharts_def Let_def)
next
  case (Timeout_fires h)
  show ?thesis
  proof (cases "filter (\<lambda>t. fst t = h) (timeouts s)")
    case Nil
    with Timeout_fires assms(2) show ?thesis by (simp add: step_def)
  next
    case (Cons t ts)
    let ?s1 = "s\<lparr>timeouts := filter (\<lambda>t. fst t \<noteq> h) (timeouts s)\<rparr>"
    from Cons Timeout_fires assms(2) have s': "s' = run_callback (snd (snd t)) ?s1"
      by (cases "fst (snd t) \<le> clock s") (auto simp: step_def)
    have ok1: "export_ok pg ?s1"
      using assms(1) by (auto simp: export_ok_def status_def split: if_splits)
    show ?thesis
    proof (cases "snd (snd t)")
      case Reconnect
      with s' ok1 show ?thesis
        by (auto simp: run_callback_def connectWebSocket_def export_ok_def status_def
            split: if_splits)
    next
      case Auto_stop
      show ?thesis
      proof (cases "isRecording s")
        case True
        then have "isRecording ?s1" by simp
        from s' Auto_stop True
        have "s' = (stopRecording ?s1)\<lparr>page := (page (stopRecording ?s1))\<lparr>
                      startRecordingBtn := Face_start\<rparr>\<rparr>"
          by (simp add: run_callback_def auto_stop_def Let_def)
        with export_ok_page [OF export_ok_stop [OF ok1 \<open>isRecording ?s1\<close>]]
        show ?thesis by simp
      next
        case False
        with s' Auto_stop ok1 show ?thesis
          by (simp add: run_callback_def auto_stop_def)
      qed
    qed
  qed
next
  case (Interval_fires h)
  with assms(2) show ?thesis
    by (intro export_ok_keep [OF assms(1)]; cases "h \<in> set (intervals s)")
       (auto simp: step_def)
qed (use assms in \<open>auto simp: step_def handler_defs export_ok_def status_def\<close>)

lemma export_ok_run:
  "export_ok pg s \<Longrightarrow> run parse s evs = Some s' \<Longrightarrow> export_ok pg s'"
proof (induction evs arbitrary: s)
  case Nil
  then show ?case by simp
next
  case (Cons e es)
  from Cons.prems(2) obtain s1 where s1: "step parse s e = Some s1"
    and r: "run parse s1 es = Some s'"
    by (auto split: option.splits)
  from Cons.prems(1) s1 have "export_ok pg s1" by (rule export_ok_step)
  from Cons.IH [OF this r] show ?case .
qed

lemma export_ok_init: "export_ok pg (init pg t0)"
  by (simp add: export_ok_def status_def init_def connectWebSocket_def)

text \<open>
  Claim C8 says that an export invoked while a session is Active is a no-op with a
  "no data" signal. On the run: start a recording, ingest one message. The session is
  Active with one buffered snapshot, and a click on the export button leaves the outputs
  empty: there is no alert.
\<close>

theorem export_while_recording_example:
  "map_option (\<lambda>s. (status s, recordingData s, outputs s))
      (run parse_sample (init page_html 0) [Click_startRecordingBtn, Ws_message ''{}''])
     = Some (Active, [snapshot_empty], [])
   \<and> map_option outputs
      (run parse_sample (init page_html 0)
         [Click_startRecordingBtn, Ws_message ''{}'', Click_downloadPdfBtn])
     = Some []"
  by (simp add: step_def status_def parse_sample_def ws_onmessage_def updateDashboard_def
      updateCharts_def handler_defs init_def Let_def page_html_def)

text \<open>
  Claim C8, amended. In every state reached from page load, a click on the export
  button produces a report only when the session is Completed and the buffer is
  non-empty. When the session is Completed and the buffer is empty, it is a no-op with
  the "no data" alert. While the session is Active it is a no-op without any signal: the
  button is disabled. Before the first recording it is a no-op, with the "no data" alert
  if the markup leaves the button enabled and without any signal otherwise.
\<close>

theorem export_gate:
  assumes "run parse (init pg t0) evs = Some s"
  shows "step parse s Click_downloadPdfBtn =
     Some (case status s of
        Active \<Rightarrow> s
      | Idle \<Rightarrow>
          if downloadPdfBtn_disabled pg then s
          else s\<lparr>outputs := outputs s @ [Alert_no_data]\<rparr>
      | Completed \<Rightarrow>
          if recordingData s = [] then s\<lparr>outputs := outputs s @ [Alert_no_data]\<rparr>
          else s\<lparr>outputs := outputs s @
                 [Pdf_saved \<lparr>duration_seconds = length (recordingData s),
                             sysInfo = system (hd (recordingData s)),
                             report_stats = calculateStats s\<rparr>]\<rparr>)"
proof -
  from export_ok_run [OF export_ok_init assms] have ok: "export_ok pg s" .
  show ?thesis
  proof (cases "status s")
    case Active
    with ok show ?thesis by (simp add: export_ok_def step_def)
  next
    case Idle
    with ok show ?thesis by (simp add: export_ok_def step_def downloadPDF_def)
  next
    case Completed
    with ok show ?thesis
      by (cases "recordingData s") (simp_all add: export_ok_def step_def downloadPDF_def)
  qed
qed

text \<open>
  The click before any recording, during a recording with one snapshot, after a
  recording without snapshots and after a recording with one snapshot.
\<close>

theorem export_gate_witness:
  "step parse_sample (init page_html 0) Click_downloadPdfBtn = Some (init page_html 0)
   \<and> map_option outputs
      (run parse_sample (init page_html 0)
         [Click_startRecordingBtn, Ws_message ''{}'', Click_downloadPdfBtn])
     = Some []
   \<and> map_option outputs
      (run parse_sample (init page_html 0)
         [Click_startRecordingBtn, Click_startRecordingBtn, Click_downloadPdfBtn])
     = Some [Alert_no_data]
   \<and> map_option (map (\<lambda>out. case out of Alert_no_data \<Rightarrow> 0 | Pdf_saved r \<Rightarrow> duration_seconds r)
        \<circ> outputs)
      (run parse_sample (init page_html 0)
         [Click_startRecordingBtn, Ws_message ''{}'', Click_startRecordingBtn,
          Click_downloadPdfBtn])
     = Some [1]"
proof -
  define sa where "sa = the (run parse_sample (init page_html 0)
      [Click_startRecordingBtn, Ws_message ''{}''])"
  define se where "se = the (run parse_sample (init page_html 0)
      [Click_startRecordingBtn, Click_startRecordingBtn])"
  define sd where "sd = the (run parse_sample (init page_html 0)
      [Click_startRecordingBtn, Ws_message ''{}'', Click_startRecordingBtn])"
  have r0: "run parse_sample (init page_html 0) [] = Some (init page_html 0)" by simp
  have ra: "run parse_sample (init page_html 0)
      [Click_startRecordingBtn, Ws_message ''{}''] = Some sa"
    and re: "run parse_sample (init page_html 0)
      [Click_startRecordingBtn, Click_startRecordingBtn] = Some se"
    and rd: "run parse_sample (init page_html 0)
      [Click_startRecordingBtn, Ws_message ''{}'', Click_startRecordingBtn] = Some sd"
    unfolding sa_def se_def sd_def by (simp_all add: step_def)
  have s0: "status (init page_html 0) = Idle" "downloadPdfBtn_disabled page_html"
    by (simp_all add: status_def init_def connectWebSocket_def page_html_def)
  have sa: "status sa = Active" "outputs sa = []"
    and se: "status se = Completed" "recordingData se = []" "outputs se = []"
    and sd: "status sd = Completed" "recordingData sd = [snapshot_empty]" "outputs sd = []"
    unfolding sa_def se_def sd_def
    by (simp_all add: step_def status_def parse_sample_def ws_onmessage_def updateDashboard_def
        updateCharts_def handler_defs init_def Let_def)
  have 1: "step parse_sample (init page_html 0) Click_downloadPdfBtn = Some (init page_html 0)"
    using export_gate [OF r0] s0 by simp
  have 2: "step parse_sample sa Click_downloadPdfBtn = Some sa"
    using export_gate [OF ra] sa by simp
  have 3: "step parse_sample se Click_downloadPdfBtn
             = Some (se\<lparr>outputs := [Alert_no_data]\<rparr>)"
    using export_gate [OF re] se by simp
  have 4: "step parse_sample sd Click_downloadPdfBtn
             = Some (sd\<lparr>outputs := [Pdf_saved \<lparr>duration_seconds = 1,
                             sysInfo = system snapshot_empty,
                             report_stats = calculateStats sd\<rparr>]\<rparr>)"
    using export_gate [OF rd] sd by simp
  have a2: "run parse_sample (init page_html 0)
              [Click_startRecordingBtn, Ws_message ''{}'', Click_downloadPdfBtn]
            = step parse_sample sa Click_downloadPdfBtn"
    using run_append [OF ra, of "[Click_downloadPdfBtn]"]
    by (simp only: append.simps run_single)
  have a3: "run parse_sample (init page_html 0)
              [Click_startRecordingBtn, Click_startRecordingBtn, Click_downloadPdfBtn]
            = step parse_sample se Click_downloadPdfBtn"
    using run_append [OF re, of "[Click_downloadPdfBtn]"]
    by (simp only: append.simps run_single)
  have a4: "run parse_sample (init page_html 0)
              [Click_startRecordingBtn, Ws_message ''{}'', Click_startRecordingBtn,
               Click_downloadPdfBtn]
            = step parse_sample sd Click_downloadPdfBtn"
    using run_append [OF rd, of "[Click_downloadPdfBtn]"]
    by (simp only: append.simps run_single)
  show ?thesis
    unfolding a2 a3 a4 1 2 3 4 by (simp add: sa)
qed

section \<open>Stopping a recording\<close>

lemma stopped_step:
  assumes "\<not> isRecording s" and "e \<noteq> Click_startRecordingBtn"
    and "step parse s e = Some s'"
  shows "\<not> isRecording s' \<and> recordingData s' = recordingData s"
proof (cases e)
  case Click_startRecordingBtn
  with assms(2) show ?thesis by simp
next
  case Click_downloadPdfBtn
  with assms show ?thesis
    by (cases "downloadPdfBtn_disabled (page s)") (auto simp: step_def downloadPDF_frame)
next
  case (Ws_message raw)
  with assms show ?thesis
    by (cases "parse raw")
       (auto simp: step_def ws_onmessage_def updateDashboard_def updateCharts_def Let_def)
next
  case (Timeout_fires h)
  show ?thesis
  proof (cases "filter (\<lambda>t. fst t = h) (timeouts s)")
    case Nil
    with Timeout_fires assms(3) show ?thesis by (simp add: step_def)
  next
    case (Cons t ts)
    with Timeout_fires assms show ?thesis
      by (cases "fst (snd t) \<le> clock s"; cases "snd (snd t)")
         (auto simp: step_def handler_defs)
  qed
next
  case (Interval_fires h)
  with assms show ?thesis
    by (cases "h \<in> set (intervals s)") (auto simp: step_def)
qed (use assms in \<open>auto simp: step_def handler_defs\<close>)

lemma stopped_run:
  "\<not> isRecording s \<Longrightarrow> Click_startRecordingBtn \<notin> set evs \<Longrightarrow> run parse s evs = Some s'
   \<Longrightarrow> \<not> isRecording s' \<and> recordingData s' = recordingData s"
proof (induction evs arbitrary: s)
  case Nil
  then show ?case by simp
next
  case (Cons e es)
  from Cons.prems(3) obtain s1 where s1: "step parse s e = Some s1"
    and r: "run parse s1 es = Some s'"
    by (auto split: option.splits)
  from Cons.prems(2) have ne: "e \<noteq> Click_startRecordingBtn"
    and nes: "Click_startRecordingBtn \<notin> set es"
    by auto
  from stopped_step [OF Cons.prems(1) ne s1]
  have 1: "\<not> isRecording s1" and 2: "recordingData s1 = recordingData s" by simp_all
  from Cons.IH [OF 1 nes r] 2 show ?case by simp
qed

lemma stopRecording_frame:
  "recordingData (stopRecording s) = recordingData s"
  "\<not> isRecording (stopRecording s)"
  by (simp_all add: stopRecording_def clearInterval_def Let_def split: option.splits)

lemma calculateStats_cong:
  "recordingData s' = recordingData s \<Longrightarrow> calculateStats s' = calculateStats s"
  by (simp add: calculateStats_def)

text \<open>
  Claim C10. \<^verbatim>\<open>stopRecording\<close>, the deadline callback and a manual stop through the button
  leave the buffer as it is; in every state reached from page load \<^verbatim>\<open>stopRecording\<close>
  changes nothing but the recording flag, the running intervals and the page. Computing the statistics and exporting do not change the buffer.
  After a stop, whatever events follow before the next start, the buffer and its
  statistics are those of the moment of the stop.
\<close>

theorem stop_preserves_buffer:
  "recordingData (stopRecording s) = recordingData s
   \<and> recordingData (auto_stop s) = recordingData s
   \<and> (isRecording s \<longrightarrow> recordingData (toggleRecording s) = recordingData s)
   \<and> (run parse0 (init pg t0) evs0 = Some s \<longrightarrow>
        (stopRecording s)\<lparr>isRecording := isRecording s, intervals := intervals s,
          page := page s\<rparr> = s)
   \<and> calculateStats (stopRecording s) = calculateStats s
   \<and> recordingData (downloadPDF s) = recordingData s
   \<and> (Click_startRecordingBtn \<notin> set evs \<and> run parse (stopRecording s) evs = Some s'
        \<longrightarrow> recordingData s' = recordingData s \<and> calculateStats s' = calculateStats s)"
proof -
  have 1: "recordingData (stopRecording s) = recordingData s"
    by (rule stopRecording_frame)
  have 2: "recordingData (auto_stop s) = recordingData s"
    by (simp add: auto_stop_def Let_def stopRecording_frame)
  have 3: "isRecording s \<longrightarrow> recordingData (toggleRecording s) = recordingData s"
    by (simp add: toggleRecording_def Let_def stopRecording_frame)
  have 4: "(stopRecording s)\<lparr>isRecording := isRecording s, intervals := intervals s,
          page := page s\<rparr> = s"
    if r: "run parse0 (init pg t0) evs0 = Some s"
  proof (cases "recordingTimer s")
    case None
    then show ?thesis
      by (simp add: stopRecording_def clearInterval_def Let_def)
  next
    case (Some h)
    from timers_ok_run [OF timers_ok_init r] Some
    have "\<forall>t \<in> set (timeouts s). fst t \<noteq> h"
      by (simp add: timers_ok_def)
    then have "filter (\<lambda>t. fst t \<noteq> h) (timeouts s) = timeouts s"
      by (simp add: filter_id_conv)
    with Some show ?thesis
      by (simp add: stopRecording_def clearInterval_def Let_def)
  qed
  have 5: "calculateStats (stopRecording s) = calculateStats s"
    using 1 by (rule calculateStats_cong)
  have 6: "recordingData (downloadPDF s) = recordingData s"
    by (rule downloadPDF_frame)
  have 7: "recordingData s' = recordingData s \<and> calculateStats s' = calculateStats s"
    if "Click_startRecordingBtn \<notin> set evs" and "run parse (stopRecording s) evs = Some s'"
  proof -
    from stopped_run [OF stopRecording_frame(2) that] 1
    have "recordingData s' = recordingData s" by simp
    then show ?thesis by (simp add: calculateStats_cong [of s' s])
  qed
  from 1 2 3 4 5 6 7 show ?thesis by blast
qed

theorem stop_preserves_buffer_witness:
  "recordingData (the (run parse_sample
       (stopRecording (the (run parse_sample (init page_html 0)
          [Click_startRecordingBtn, Ws_message ''{}''])))
       [Ws_message ''{}'', Click_downloadPdfBtn]))
   = [snapshot_empty]
   \<and> recordingData (toggleRecording (the (run parse_sample (init page_html 0)
          [Click_startRecordingBtn, Ws_message ''{}''])))
   = [snapshot_empty]
   \<and> timeouts (stopRecording (the (run parse_sample (init page_html 0)
          [Click_startRecordingBtn, Ws_message ''{}''])))
   = [(3, 300000, Auto_stop)]"
proof -
  let ?pre = "[Click_startRecordingBtn, Ws_message ''{}'']"
  let ?s = "the (run parse_sample (init page_html 0) ?pre)"
  let ?evs = "[Ws_message ''{}'', Click_downloadPdfBtn]"
  let ?s' = "the (run parse_sample (stopRecording ?s) ?evs)"
  have d: "recordingData ?s = [snapshot_empty]" and a: "isRecording ?s"
    and t: "timeouts ?s = [(3, 300000, Auto_stop)]"
    by (simp_all add: step_def parse_sample_def ws_onmessage_def updateDashboard_def
        updateCharts_def handler_defs init_def Let_def RECORDING_DURATION_def)
  have r0: "run parse_sample (init page_html 0) ?pre = Some ?s"
    by (simp add: step_def)
  have r: "run parse_sample (stopRecording ?s) ?evs = Some ?s'"
    by (simp add: step_def)
  have n: "Click_startRecordingBtn \<notin> set ?evs" by simp
  from stop_preserves_buffer [of ?s parse_sample page_html 0 ?pre ?evs parse_sample ?s']
    r0 r n a
  have 1: "recordingData ?s' = recordingData ?s"
    and 2: "recordingData (toggleRecording ?s) = recordingData ?s"
    and 3: "(stopRecording ?s)\<lparr>isRecording := isRecording ?s, intervals := intervals ?s,
              page := page ?s\<rparr> = ?s"
    by blast+
  from 3 have "timeouts ((stopRecording ?s)\<lparr>isRecording := isRecording ?s,
              intervals := intervals ?s, page := page ?s\<rparr>) = timeouts ?s"
    by (rule arg_cong)
  then have 4: "timeouts (stopRecording ?s) = timeouts ?s"
    by simp
  from 1 2 4 d t show ?thesis by simp
qed

end
